theory Spec2Isabelle
  imports Complex_Main "HOL-Library.Word"
begin

unbundle bit_operations_syntax

section \<open>The live audio session of services/geminiService.ts\<close>

text \<open>
  The class \<open>GeminiLiveService\<close> is embedded as a record of its private fields and one
  function per method. A method takes the fields and returns the fields after the call,
  the calls it made on the outside world (the list of \<open>effect\<close>s, oldest first) and the
  exception that left it, if any. What the outside world answers (clock readings, whether
  a browser call throws, how the session promise settles) is an argument of the method.

  Times are seconds of the output \<open>AudioContext\<close> clock. They are real numbers here: the
  rounding of JavaScript's doubles is not modelled.
\<close>

type_synonym byte = "8 word"

text \<open>A call of the outside world either returns or throws an error with a message.\<close>

datatype 'a outcome = Returns 'a | Throws string

text \<open>
  What the \<open>catch\<close> block of \<open>connect\<close> may be handed: \<open>null\<close> or \<open>undefined\<close>, or
  any other value, given by what reading its \<open>message\<close> yields (the empty string when
  that is undefined or empty). A call or a promise awaited inside the \<open>try\<close> gives its
  value or fails with such a value.
\<close>

datatype thrown = Nullish | Thrown string

datatype 'a awaited = Gives 'a | Fails thrown

text \<open>
  \<open>AudioBuffer\<close>: one channel of samples and a sample rate. Its \<open>duration\<close> attribute
  is the number of sample frames over the sample rate.
\<close>

record audio_buffer =
  channelData :: "real list"
  sampleRate :: nat

definition duration :: "audio_buffer \<Rightarrow> real" where
  "duration b = real (length (channelData b)) / real (sampleRate b)"

text \<open>
  What \<open>handleMessage\<close> reads of a \<open>LiveServerMessage\<close>:
  \<open>serverContent?.modelTurn?.parts?.[0]?.inlineData?.data\<close> (absent is \<open>None\<close>) and
  whether \<open>serverContent?.interrupted\<close> is truthy.
\<close>

record message =
  inlineData :: "string option"
  interrupted :: bool

text \<open>
  The two helpers of \<open>utils/audioUtils\<close> that \<open>handleMessage\<close> calls are parameters
  of the model: \<open>decode\<close> turns the base64 text into bytes, \<open>decodeAudioData\<close> turns
  bytes, a sample rate and a channel count into an \<open>AudioBuffer\<close>.
\<close>

record audio_utils =
  decode :: "string \<Rightarrow> byte list outcome"
  decodeAudioData :: "byte list \<Rightarrow> nat \<Rightarrow> nat \<Rightarrow> audio_buffer outcome"

datatype audio_context = AudioContext nat

datatype script_processor = ScriptProcessor nat nat nat

record session =
  closeIsFunction :: bool

text \<open>
  The promise returned by \<open>client.live.connect\<close>. While it is pending it counts the
  reactions \<open>disconnect\<close> has attached with \<open>then\<close>.
\<close>

datatype session_promise = Pending nat | Fulfilled session | Rejected thrown

text \<open>The resources \<open>disconnect\<close> gives back, by the call that gives each back.\<close>

datatype release =
    TrackStop nat
  | ProcessorDisconnect
  | CloseInput
  | CloseOutput
  | SessionClose

datatype effect =
    OnAudioData audio_buffer
  | SourceStart nat real
  | SourceStop nat
  | OnError string
  | OnClose
  | ConsoleError string
  | LiveConnect
  | CaptureStart script_processor
  | Release release
  | Unhandled string

text \<open>
  The fields of the class. \<open>sources\<close> is a JavaScript \<open>Set\<close>, which iterates in
  insertion order: a list without repetition. A buffer source node is known by its
  number; \<open>created\<close> counts the nodes made so far and numbers the next one.
\<close>

record service =
  sessionPromise :: "session_promise option"
  inputAudioContext :: "audio_context option"
  outputAudioContext :: "audio_context option"
  nextStartTime :: real
  sources :: "nat list"
  stream :: "nat list option"
  processor :: "script_processor option"
  created :: nat

type_synonym result = "service \<times> effect list \<times> string option"

definition new_service :: service where
  "new_service =
     \<lparr>sessionPromise = None, inputAudioContext = None, outputAudioContext = None,
      nextStartTime = 0, sources = [], stream = None, processor = None, created = 0\<rparr>"

subsection \<open>stopAudioPlayback\<close>

text \<open>\<open>now\<close> is \<open>outputAudioContext.currentTime\<close> as read by this call.\<close>

definition stopAudioPlayback :: "real \<Rightarrow> service \<Rightarrow> service \<times> effect list" where
  "stopAudioPlayback now s =
     (s\<lparr>sources := [],
        nextStartTime := (case outputAudioContext s of
                            None \<Rightarrow> nextStartTime s
                          | Some ctx \<Rightarrow> now)\<rparr>,
      map SourceStop (sources s))"

subsection \<open>handleMessage\<close>

text \<open>
  The last statement of \<open>handleMessage\<close>, reached by every path that does not return or
  throw before it.
\<close>

definition on_interrupted :: "real \<Rightarrow> message \<Rightarrow> service \<times> effect list \<Rightarrow> result" where
  "on_interrupted now' m r =
     (if interrupted m
      then (case stopAudioPlayback now' (fst r) of (s', out) \<Rightarrow> (s', snd r @ out, None))
      else (fst r, snd r, None))"

text \<open>
  \<open>now\<close> is the clock as read before the \<open>await\<close>, \<open>now'\<close> the clock as read by
  \<open>stopAudioPlayback\<close> at the end of the same call. An empty string is falsy, so it
  takes the path of a message without audio. \<open>decode\<close> is called outside the \<open>try\<close>: an
  exception of it leaves the method. The call is taken as a whole: no other handler runs
  while it is suspended at its \<open>await\<close>.
\<close>

definition handleMessage :: "audio_utils \<Rightarrow> real \<Rightarrow> real \<Rightarrow> service \<Rightarrow> message \<Rightarrow> result" where
  "handleMessage U now now' s m =
     (case inlineData m of
        None \<Rightarrow> on_interrupted now' m (s, [])
      | Some base64Audio \<Rightarrow>
          (case outputAudioContext s of
             None \<Rightarrow> on_interrupted now' m (s, [])
           | Some ctx \<Rightarrow>
               if base64Audio = [] then on_interrupted now' m (s, [])
               else
                 (case decode U base64Audio of
                    Throws e \<Rightarrow> (s, [], Some e)
                  | Returns encoded \<Rightarrow>
                      if length encoded = 0 then (s, [], None)
                      else
                        (let s1 = s\<lparr>nextStartTime := max (nextStartTime s) now\<rparr> in
                         case decodeAudioData U encoded 24000 1 of
                           Throws e \<Rightarrow>
                             on_interrupted now' m (s1, [ConsoleError ''Error decoding audio''])
                         | Returns audioBuffer \<Rightarrow>
                             (let source = created s1;
                                  s2 = s1\<lparr>created := Suc (created s1),
                                          sources := sources s1 @ [source],
                                          nextStartTime := nextStartTime s1 + duration audioBuffer\<rparr>
                              in on_interrupted now' m
                                   (s2, [OnAudioData audioBuffer,
                                         SourceStart source (nextStartTime s1)]))))))"

text \<open>The listener of a node's \<open>ended\<close> event.\<close>

definition source_ended :: "nat \<Rightarrow> service \<Rightarrow> service" where
  "source_ended source s = s\<lparr>sources := removeAll source (sources s)\<rparr>"

subsection \<open>handleOpen\<close>

text \<open>
  Installs the capture pipeline: a script processor of 4096 frames, one input and one
  output channel, whose \<open>onaudioprocess\<close> forwards each microphone frame to the session.
  Nothing is installed unless both the capture context and the stream are there.
\<close>

definition handleOpen :: "service \<Rightarrow> service \<times> effect list" where
  "handleOpen s =
     (case inputAudioContext s of
        None \<Rightarrow> (s, [])
      | Some ctx \<Rightarrow>
          (case stream s of
             None \<Rightarrow> (s, [])
           | Some tracks \<Rightarrow>
               (s\<lparr>processor := Some (ScriptProcessor 4096 1 1)\<rparr>,
                [CaptureStart (ScriptProcessor 4096 1 1)])))"

subsection \<open>disconnect\<close>

text \<open>
  The first four statements of \<open>disconnect\<close>, in their order. Optional chaining skips
  the call on a field that is \<open>null\<close>.
\<close>

definition releases :: "service \<Rightarrow> release list" where
  "releases s =
     (case stream s of None \<Rightarrow> [] | Some tracks \<Rightarrow> map TrackStop tracks) @
     (case processor s of None \<Rightarrow> [] | Some p \<Rightarrow> [ProcessorDisconnect]) @
     (case inputAudioContext s of None \<Rightarrow> [] | Some ctx \<Rightarrow> [CloseInput]) @
     (case outputAudioContext s of None \<Rightarrow> [] | Some ctx \<Rightarrow> [CloseOutput])"

text \<open>
  \<open>failing\<close> lists the release calls that throw, each with the message of its error.
  The statements run one after the other with no \<open>try\<close> around them: the first call
  that throws ends the method.
\<close>

fun attempt :: "(release \<times> string) list \<Rightarrow> release list \<Rightarrow> effect list \<times> string option" where
  "attempt failing [] = ([], None)"
| "attempt failing (r # rs) =
     (case map_of failing r of
        Some e \<Rightarrow> ([Release r], Some e)
      | None \<Rightarrow> (case attempt failing rs of (out, raised) \<Rightarrow> (Release r # out, raised)))"

text \<open>
  The reaction \<open>disconnect\<close> attaches to the session promise: it calls \<open>close\<close> when
  the session has such a function; \<open>catch(() => {})\<close> swallows whatever it throws.
\<close>

definition close_session :: "session \<Rightarrow> effect list" where
  "close_session sess = (if closeIsFunction sess then [Release SessionClose] else [])"

definition disconnect :: "(release \<times> string) list \<Rightarrow> service \<Rightarrow> result" where
  "disconnect failing s =
     (case attempt failing (releases s) of
        (out, Some e) \<Rightarrow> (s, out, Some e)
      | (out, None) \<Rightarrow>
          (case sessionPromise s of
             None \<Rightarrow> (s, out, None)
           | Some (Pending n) \<Rightarrow> (s\<lparr>sessionPromise := Some (Pending (Suc n))\<rparr>, out, None)
           | Some (Fulfilled sess) \<Rightarrow> (s, out @ close_session sess, None)
           | Some (Rejected e) \<Rightarrow> (s, out, None)))"

subsection \<open>connect\<close>

datatype context_state = Suspended | Running | Closed

text \<open>
  What the browser answers to the calls of \<open>connect\<close>; \<open>liveConnect\<close> is whether the
  call of \<open>client.live.connect\<close> itself returns its promise or throws.
\<close>

record connect_env =
  newInput :: "audio_context outcome"
  newOutput :: "audio_context outcome"
  inputState :: context_state
  resumeInput :: "unit awaited"
  outputState :: context_state
  resumeOutput :: "unit awaited"
  getUserMedia :: "nat list awaited"
  liveConnect :: "unit awaited"

text \<open>
  The \<open>catch\<close> block of \<open>connect\<close>. Reading \<open>err.message\<close> of \<open>null\<close> or
  \<open>undefined\<close> throws a TypeError: it leaves the method after the log line, before
  \<open>onError\<close> and \<open>disconnect\<close>. \<open>disconnect\<close> is an async method called without
  \<open>await\<close>: what it throws rejects a promise nobody holds and does not leave
  \<open>connect\<close>.
\<close>

definition connect_failed :: "(release \<times> string) list \<Rightarrow> thrown \<Rightarrow> service \<Rightarrow> result" where
  "connect_failed failing err s =
     (case err of
        Nullish \<Rightarrow>
          (s, [ConsoleError ''Connection Failed''],
           Some ''TypeError: err.message read on null or undefined'')
      | Thrown e \<Rightarrow>
          (case disconnect failing s of
             (s', out, raised) \<Rightarrow>
               (s',
                [ConsoleError ''Connection Failed'',
                 OnError (if e = [] then ''Failed to initialize connection'' else e)] @ out @
                (case raised of None \<Rightarrow> [] | Some e' \<Rightarrow> [Unhandled e']),
                None)))"

text \<open>
  \<open>connect\<close> up to its \<open>await this.sessionPromise\<close>. The two contexts are made before
  the \<open>try\<close>, so an exception of a constructor leaves the method.
\<close>

definition connect :: "connect_env \<Rightarrow> (release \<times> string) list \<Rightarrow> service \<Rightarrow> result" where
  "connect env failing s =
     (case newInput env of
        Throws e \<Rightarrow> (s, [], Some e)
      | Returns ic \<Rightarrow>
          (let s1 = s\<lparr>inputAudioContext := Some ic\<rparr> in
           case newOutput env of
             Throws e \<Rightarrow> (s1, [], Some e)
           | Returns oc \<Rightarrow>
               (let s2 = s1\<lparr>outputAudioContext := Some oc\<rparr> in
                case (if inputState env = Suspended then resumeInput env else Gives ()) of
                  Fails e \<Rightarrow> connect_failed failing e s2
                | Gives u \<Rightarrow>
                    (case (if outputState env = Suspended then resumeOutput env else Gives ()) of
                       Fails e \<Rightarrow> connect_failed failing e s2
                     | Gives u' \<Rightarrow>
                         (case getUserMedia env of
                            Fails e \<Rightarrow> connect_failed failing e s2
                          | Gives tracks \<Rightarrow>
                              (let s3 = s2\<lparr>stream := Some tracks\<rparr> in
                               case liveConnect env of
                                 Fails e \<Rightarrow> connect_failed failing e s3
                               | Gives u'' \<Rightarrow>
                                   (s3\<lparr>sessionPromise := Some (Pending 0)\<rparr>,
                                    [LiveConnect], None)))))))"

text \<open>
  \<open>connect\<close> from its \<open>await\<close> on, when the promise of \<open>client.live.connect\<close>
  settles: fulfilled, the method ends, and the reactions attached by \<open>disconnect\<close> in the
  meantime run; rejected, the \<open>catch\<close> block runs.
\<close>

definition connect_settled :: "session awaited \<Rightarrow> (release \<times> string) list \<Rightarrow> service \<Rightarrow> result" where
  "connect_settled r failing s =
     (case sessionPromise s of
        Some (Pending n) \<Rightarrow>
          (case r of
             Gives sess \<Rightarrow>
               (s\<lparr>sessionPromise := Some (Fulfilled sess)\<rparr>,
                concat (replicate n (close_session sess)), None)
           | Fails e \<Rightarrow> connect_failed failing e (s\<lparr>sessionPromise := Some (Rejected e)\<rparr>))
      | _ \<Rightarrow> (s, [], None))"

subsection \<open>The callbacks given to the transport\<close>

definition onerror :: "service \<Rightarrow> service \<times> effect list" where
  "onerror s =
     (s, [ConsoleError ''Gemini Live Error'',
          OnError ''Network error: Unable to connect to Soul Interface.''])"

definition onclose :: "service \<Rightarrow> service \<times> effect list" where
  "onclose s = (s, [OnClose])"

subsection \<open>A session as a sequence of events\<close>

datatype event =
    Connect connect_env "(release \<times> string) list"
  | Settled "session awaited" "(release \<times> string) list"
  | Open
  | Message message real real
  | NetError
  | NetClose
  | Ended nat
  | Disconnect "(release \<times> string) list"

text \<open>An exception that leaves an async method rejects its promise; nothing catches it.\<close>

definition unhandled :: "result \<Rightarrow> service \<times> effect list" where
  "unhandled r =
     (case r of (s, out, raised) \<Rightarrow>
        (s, out @ (case raised of None \<Rightarrow> [] | Some e \<Rightarrow> [Unhandled e])))"

fun step :: "audio_utils \<Rightarrow> service \<Rightarrow> event \<Rightarrow> service \<times> effect list" where
  "step U s (Connect env failing) = unhandled (connect env failing s)"
| "step U s (Settled r failing) = unhandled (connect_settled r failing s)"
| "step U s Open = handleOpen s"
| "step U s (Message m now now') = unhandled (handleMessage U now now' s m)"
| "step U s NetError = onerror s"
| "step U s NetClose = onclose s"
| "step U s (Ended source) = (source_ended source s, [])"
| "step U s (Disconnect failing) = unhandled (disconnect failing s)"

fun run :: "audio_utils \<Rightarrow> service \<Rightarrow> event list \<Rightarrow> service \<times> effect list" where
  "run U s [] = (s, [])"
| "run U s (e # es) =
     (case step U s e of (s', out) \<Rightarrow>
        (case run U s' es of (s'', out') \<Rightarrow> (s'', out @ out')))"

subsection \<open>handleMessage across its await\<close>

text \<open>
  \<open>handleMessage\<close> is an async method: a call runs up to
  \<open>await decodeAudioData(...)\<close>, is suspended there, and runs from there on when the
  decoding has settled. \<open>handleMessage_begin\<close> is the first part; it yields the encoded
  bytes when the call is suspended, and the finished call otherwise.
  \<open>handleMessage_resume\<close> is the second part; it reads \<open>nextStartTime\<close> as it is
  when the call resumes.
\<close>

record suspended_call =
  call_message :: message
  call_encoded :: "byte list"

definition handleMessage_begin ::
  "audio_utils \<Rightarrow> real \<Rightarrow> real \<Rightarrow> service \<Rightarrow> message \<Rightarrow> result \<times> byte list option" where
  "handleMessage_begin U now now' s m =
     (case inlineData m of
        None \<Rightarrow> (on_interrupted now' m (s, []), None)
      | Some base64Audio \<Rightarrow>
          (case outputAudioContext s of
             None \<Rightarrow> (on_interrupted now' m (s, []), None)
           | Some ctx \<Rightarrow>
               if base64Audio = [] then (on_interrupted now' m (s, []), None)
               else
                 (case decode U base64Audio of
                    Throws e \<Rightarrow> ((s, [], Some e), None)
                  | Returns encoded \<Rightarrow>
                      if length encoded = 0 then ((s, [], None), None)
                      else ((s\<lparr>nextStartTime := max (nextStartTime s) now\<rparr>, [], None),
                            Some encoded))))"

definition handleMessage_resume ::
  "audio_utils \<Rightarrow> real \<Rightarrow> service \<Rightarrow> message \<Rightarrow> byte list \<Rightarrow> result" where
  "handleMessage_resume U now' s m encoded =
     (case decodeAudioData U encoded 24000 1 of
        Throws e \<Rightarrow> on_interrupted now' m (s, [ConsoleError ''Error decoding audio''])
      | Returns audioBuffer \<Rightarrow>
          (let source = created s;
               s2 = s\<lparr>created := Suc (created s),
                      sources := sources s @ [source],
                      nextStartTime := nextStartTime s + duration audioBuffer\<rparr>
           in on_interrupted now' m
                (s2, [OnAudioData audioBuffer, SourceStart source (nextStartTime s)])))"

text \<open>
  The turns of the event loop that concern messages: a message arrives and its call
  begins, or the decoding of the \<open>i\<close>-th suspended call (oldest first) settles and the
  call resumes. Nothing in the class orders the resumptions: they come in the order the
  decodings settle.
\<close>

datatype turn = Arrives message real real | Completes nat real

fun turn_step ::
  "audio_utils \<Rightarrow> service \<times> suspended_call list \<Rightarrow> turn \<Rightarrow>
   (service \<times> suspended_call list) \<times> effect list" where
  "turn_step U (s, pending) (Arrives m now now') =
     (case handleMessage_begin U now now' s m of
        (r, None) \<Rightarrow> ((fst (unhandled r), pending), snd (unhandled r))
      | (r, Some encoded) \<Rightarrow>
          ((fst (unhandled r), pending @ [\<lparr>call_message = m, call_encoded = encoded\<rparr>]),
           snd (unhandled r)))"
| "turn_step U (s, pending) (Completes i now') =
     (if i < length pending
      then (case unhandled (handleMessage_resume U now' s (call_message (pending ! i))
                              (call_encoded (pending ! i))) of
              (s', out) \<Rightarrow> ((s', take i pending @ drop (Suc i) pending), out))
      else ((s, pending), []))"

fun turns ::
  "audio_utils \<Rightarrow> service \<times> suspended_call list \<Rightarrow> turn list \<Rightarrow>
   (service \<times> suspended_call list) \<times> effect list" where
  "turns U l [] = (l, [])"
| "turns U l (t # ts) =
     (case turn_step U l t of (l', out) \<Rightarrow>
        (case turns U l' ts of (l'', out') \<Rightarrow> (l'', out @ out')))"

section \<open>The caller: startSession of App.tsx\<close>

datatype AppState = LANDING | UPLOAD | PROCESSING | ACTIVE | ERROR

record app =
  state :: AppState
  errorMsg :: "string option"
  isMicActive :: bool
  liveServiceRef :: "service option"

text \<open>The callbacks \<open>startSession\<close> hands to the service, run on what the service emitted.\<close>

fun app_callback :: "app \<Rightarrow> effect \<Rightarrow> app" where
  "app_callback a (OnError msg) = a\<lparr>errorMsg := Some msg, isMicActive := False\<rparr>"
| "app_callback a OnClose = a\<lparr>isMicActive := False\<rparr>"
| "app_callback a e = a"

text \<open>
  \<open>apiKey\<close> is \<open>process.env.API_KEY\<close>; undefined and the empty string are falsy.
  With a key, the service is constructed and \<open>connect\<close> runs up to its \<open>await\<close>.
\<close>

definition startSession ::
  "string option \<Rightarrow> connect_env \<Rightarrow> (release \<times> string) list \<Rightarrow> app \<Rightarrow> app \<times> effect list \<times> string option" where
  "startSession apiKey env failing a =
     (if apiKey = None \<or> apiKey = Some []
      then (a\<lparr>errorMsg := Some ''API Key not found in environment.'', state := ERROR\<rparr>, [], None)
      else
        (case connect env failing new_service of
           (s, out, raised) \<Rightarrow>
             (foldl app_callback (a\<lparr>isMicActive := True, errorMsg := None\<rparr>) out
                \<lparr>liveServiceRef := Some s\<rparr>,
              out, raised)))"

section \<open>Reading a trace\<close>

text \<open>
  The chunks a trace schedules (node and start time), the frames it reports to the
  audio-level observer, and everything it reports or logs as an error.
\<close>

definition started :: "effect list \<Rightarrow> (nat \<times> real) list" where
  "started out = concat (map (\<lambda>e. case e of SourceStart i t \<Rightarrow> [(i, t)] | _ \<Rightarrow> []) out)"

definition reported :: "effect list \<Rightarrow> audio_buffer list" where
  "reported out = concat (map (\<lambda>e. case e of OnAudioData b \<Rightarrow> [b] | _ \<Rightarrow> []) out)"

definition errors :: "effect list \<Rightarrow> string list" where
  "errors out =
     concat (map (\<lambda>e. case e of OnError x \<Rightarrow> [x] | ConsoleError x \<Rightarrow> [x] | Unhandled x \<Rightarrow> [x]
                         | _ \<Rightarrow> []) out)"

text \<open>
  The frame a message carries, when it carries one: its payload is a non-empty string,
  \<open>decode\<close> returns at least one byte of it and \<open>decodeAudioData\<close> returns a buffer.
\<close>

definition audio_of :: "audio_utils \<Rightarrow> message \<Rightarrow> audio_buffer option" where
  "audio_of U m =
     (case inlineData m of
        None \<Rightarrow> None
      | Some b \<Rightarrow>
          if b = [] then None
          else (case decode U b of
                  Throws e \<Rightarrow> None
                | Returns encoded \<Rightarrow>
                    if encoded = [] then None
                    else (case decodeAudioData U encoded 24000 1 of
                            Throws e \<Rightarrow> None
                          | Returns buf \<Rightarrow> Some buf)))"


text \<open>
  The scheduling rule in the specification's words: \<open>startAt\<close> is the larger of
  \<open>nextPlaybackTime\<close> and the output clock, and \<open>nextPlaybackTime\<close> becomes
  \<open>startAt\<close> plus the frame's duration. \<open>spec_enqueue\<close> lists the start times of a
  sequence of frames, each given by the clock at its enqueue and its duration;
  \<open>spec_next\<close> is \<open>nextPlaybackTime\<close> after the last of them.
\<close>

fun spec_enqueue :: "real \<Rightarrow> (real \<times> real) list \<Rightarrow> real list" where
  "spec_enqueue nextPlaybackTime [] = []"
| "spec_enqueue nextPlaybackTime ((outputClockNow, frameDuration) # frames) =
     (let startAt = max nextPlaybackTime outputClockNow
      in startAt # spec_enqueue (startAt + frameDuration) frames)"


subsection \<open>Concrete inputs\<close>

text \<open>
  A stand-in for \<open>utils/audioUtils\<close>: a blank payload decodes to no byte, any other
  payload to two bytes, and every buffer is \<open>n\<close> samples of silence.
\<close>

definition silence :: "nat \<Rightarrow> audio_utils" where
  "silence n =
     \<lparr>decode = (\<lambda>base64. Returns (if base64 = '' '' then [] else [0, 0])),
      decodeAudioData = (\<lambda>bytes rate channels.
         Returns \<lparr>channelData = replicate n 0, sampleRate = rate\<rparr>)\<rparr>"

text \<open>A service in the middle of a reply: two chunks pending, the next due at 5 s.\<close>

definition playing :: service where
  "playing = new_service\<lparr>outputAudioContext := Some (AudioContext 24000),
                          nextStartTime := 5, sources := [0, 1], created := 2\<rparr>"

text \<open>A message with a payload and no interruption.\<close>

definition frame :: message where
  "frame = \<lparr>inlineData = Some ''AAA='', interrupted = False\<rparr>"

subsection \<open>Reading a session\<close>

text \<open>The clock read by the flush of an interrupted message; \<open>None\<close> for any other event.\<close>

fun interruption :: "event \<Rightarrow> real option" where
  "interruption (Message m now now') = (if interrupted m then Some now' else None)"
| "interruption e = None"

text \<open>The same for a turn of the event loop, given the calls suspended before it.\<close>

fun turn_interruption :: "suspended_call list \<Rightarrow> turn \<Rightarrow> real option" where
  "turn_interruption pending (Arrives m now now') = (if interrupted m then Some now' else None)"
| "turn_interruption pending (Completes i now') =
     (if i < length pending \<and> interrupted (call_message (pending ! i)) then Some now' else None)"

text \<open>
  The messages given to \<open>config.onError\<close> and the number of calls of \<open>config.onClose\<close>
  in a trace, and the close events in a sequence of events.
\<close>

definition on_errors :: "effect list \<Rightarrow> string list" where
  "on_errors out = concat (map (\<lambda>e. case e of OnError x \<Rightarrow> [x] | _ \<Rightarrow> []) out)"

definition on_closes :: "effect list \<Rightarrow> nat" where
  "on_closes out = length (filter (\<lambda>e. e = OnClose) out)"


text \<open>A browser that grants everything \<open>connect\<close> asks for.\<close>

definition granted :: connect_env where
  "granted =
     \<lparr>newInput = Returns (AudioContext 16000), newOutput = Returns (AudioContext 24000),
      inputState = Suspended, resumeInput = Gives (),
      outputState = Running, resumeOutput = Gives (),
      getUserMedia = Gives [0], liveConnect = Gives ()\<rparr>"

subsection \<open>Reading a teardown\<close>

text \<open>
  What \<open>disconnect\<close> asks of the session when its four releases went through: a
  fulfilled session is closed at once, a pending one when it is fulfilled (the promise
  counts one more reaction), nothing is asked of a rejected or absent one.
\<close>

definition close_request :: "service \<Rightarrow> effect list" where
  "close_request s =
     (case sessionPromise s of Some (Fulfilled sess) \<Rightarrow> close_session sess | _ \<Rightarrow> [])"

definition disconnected :: "service \<Rightarrow> service" where
  "disconnected s =
     (case sessionPromise s of
        Some (Pending n) \<Rightarrow> s\<lparr>sessionPromise := Some (Pending (Suc n))\<rparr>
      | _ \<Rightarrow> s)"

text \<open>An open session: microphone track 0, the processor installed, the session fulfilled.\<close>

definition live :: service where
  "live = \<lparr>sessionPromise = Some (Fulfilled \<lparr>closeIsFunction = True\<rparr>),
            inputAudioContext = Some (AudioContext 16000),
            outputAudioContext = Some (AudioContext 24000),
            nextStartTime = 0, sources = [], stream = Some [0],
            processor = Some (ScriptProcessor 4096 1 1), created = 0\<rparr>"

subsection \<open>Reading a setup\<close>

text \<open>
  The first failure inside the \<open>try\<close> of \<open>connect\<close>, before \<open>client.live.connect\<close>
  is called: resuming the capture context, resuming the playback context, or the
  request for the microphone. \<open>cause\<close> is the message \<open>onError\<close> is given for an
  error \<open>e\<close>.
\<close>

definition setup_failure :: "connect_env \<Rightarrow> thrown option" where
  "setup_failure env =
     (case (if inputState env = Suspended then resumeInput env else Gives ()) of
        Fails e \<Rightarrow> Some e
      | Gives u \<Rightarrow>
          (case (if outputState env = Suspended then resumeOutput env else Gives ()) of
             Fails e \<Rightarrow> Some e
           | Gives u' \<Rightarrow>
               (case getUserMedia env of Fails e \<Rightarrow> Some e | Gives tracks \<Rightarrow> None)))"

definition cause :: "string \<Rightarrow> string" where
  "cause e = (if e = [] then ''Failed to initialize connection'' else e)"



fun is_connect :: "event \<Rightarrow> bool" where
  "is_connect (Connect env failing) = True"
| "is_connect e = False"

text \<open>
  A browser whose user refuses the microphone, and the application as it is when its
  state has become ACTIVE and \<open>startSession\<close> is called.
\<close>

definition denied :: connect_env where
  "denied = granted\<lparr>getUserMedia := Fails (Thrown ''Permission denied'')\<rparr>"

definition activated :: app where
  "activated = \<lparr>state = ACTIVE, errorMsg = None, isMicActive = False, liveServiceRef = None\<rparr>"

section \<open>The PCM codec\<close>

text \<open>
  The codec lives in \<open>utils/audioUtils\<close>, which is not among the sources at hand. It is
  written down here from section 4.1 of the specification. Samples are real numbers.
\<close>

text \<open>Modelled from the spec: the \<open>clamp(s,-1,1)\<close> of \<open>encode\<close> in the missing audioUtils.\<close>

definition clamp :: "real \<Rightarrow> real" where
  "clamp s = max (- 1) (min 1 s)"

text \<open>Modelled from the spec: the sample conversion of \<open>encode\<close> in the missing audioUtils, a
  16-bit signed integer \<open>round(clamp(s,-1,1) * 32767)\<close>; halves round upwards.\<close>

definition quantize :: "real \<Rightarrow> 16 word" where
  "quantize s = word_of_int (round (clamp s * 32767))"

text \<open>Modelled from the spec: the little-endian packing of \<open>encode\<close> in the missing audioUtils,
  low byte first.\<close>

definition pack :: "16 word \<Rightarrow> byte list" where
  "pack v = [ucast v, ucast (drop_bit 8 v)]"

text \<open>Modelled from the spec: the unpacking of little-endian int16 pairs of \<open>decode\<close> in the missing
  audioUtils; a last byte without a partner is dropped.\<close>

fun unpack :: "byte list \<Rightarrow> 16 word list" where
  "unpack (lo # hi # bytes) = (push_bit 8 (ucast hi) OR ucast lo) # unpack bytes"
| "unpack bytes = []"

text \<open>Modelled from the spec: the normalisation \<open>v/32768\<close> of \<open>decode\<close> in the missing audioUtils.\<close>

definition to_float :: "16 word \<Rightarrow> real" where
  "to_float v = real_of_int (sint v) / 32768"

text \<open>Modelled from the spec: the base64 text envelope of the missing audioUtils, with the standard
  alphabet: the character of a six-bit value.\<close>

definition base64_char :: "nat \<Rightarrow> char" where
  "base64_char n =
     (if n < 26 then char_of (65 + n)
      else if n < 52 then char_of (71 + n)
      else if n < 62 then char_of (n - 4)
      else if n = 62 then CHR ''+'' else CHR ''/'')"

text \<open>Modelled from the spec: the base64 text envelope of the missing audioUtils: the six-bit value
  of a character of the alphabet.\<close>

definition base64_value :: "char \<Rightarrow> nat option" where
  "base64_value c =
     (let k = of_char c :: nat in
      if 65 \<le> k \<and> k \<le> 90 then Some (k - 65)
      else if 97 \<le> k \<and> k \<le> 122 then Some (k - 71)
      else if 48 \<le> k \<and> k \<le> 57 then Some (k + 4)
      else if k = 43 then Some 62
      else if k = 47 then Some 63
      else None)"

text \<open>Modelled from the spec: the text envelope applied by \<open>encode\<close> in the missing audioUtils:
  three bytes become four characters, and a last group of one or two bytes is padded.\<close>

fun base64 :: "byte list \<Rightarrow> string" where
  "base64 (a # b # c # bytes) =
     [base64_char (unat a div 4),
      base64_char (unat a mod 4 * 16 + unat b div 16),
      base64_char (unat b mod 16 * 4 + unat c div 64),
      base64_char (unat c mod 64)] @ base64 bytes"
| "base64 [a, b] =
     [base64_char (unat a div 4),
      base64_char (unat a mod 4 * 16 + unat b div 16),
      base64_char (unat b mod 16 * 4),
      CHR ''='']"
| "base64 [a] =
     [base64_char (unat a div 4),
      base64_char (unat a mod 4 * 16),
      CHR ''='', CHR ''='']"
| "base64 [] = []"

text \<open>Modelled from the spec: the envelope decoding of \<open>decode\<close> in the missing audioUtils; text
  that is not base64 has no decoding.\<close>

fun unbase64 :: "string \<Rightarrow> byte list option" where
  "unbase64 (c0 # c1 # c2 # c3 # text) =
     (case (base64_value c0, base64_value c1) of
        (Some v0, Some v1) \<Rightarrow>
          if c3 = CHR ''='' then
            (if text \<noteq> [] then None
             else if c2 = CHR ''='' then Some [of_nat (v0 * 4 + v1 div 16)]
             else (case base64_value c2 of
                     Some v2 \<Rightarrow>
                       Some [of_nat (v0 * 4 + v1 div 16), of_nat (v1 mod 16 * 16 + v2 div 4)]
                   | None \<Rightarrow> None))
          else
            (case (base64_value c2, base64_value c3, unbase64 text) of
               (Some v2, Some v3, Some bytes) \<Rightarrow>
                 Some (of_nat (v0 * 4 + v1 div 16) # of_nat (v1 mod 16 * 16 + v2 div 4) #
                       of_nat (v2 mod 4 * 64 + v3) # bytes)
             | _ \<Rightarrow> None)
      | _ \<Rightarrow> None)"
| "unbase64 [] = Some []"
| "unbase64 text = None"

text \<open>Modelled from the spec: \<open>encode(rawFrame) -> wireFrame\<close> of the missing audioUtils. It fails
  on an empty frame only.\<close>

definition spec_encode :: "real list \<Rightarrow> string outcome" where
  "spec_encode rawFrame =
     (if rawFrame = [] then Throws ''empty frame''
      else Returns (base64 (concat (map (\<lambda>s. pack (quantize s)) rawFrame))))"

text \<open>Modelled from the spec: \<open>decode(wireFrame) -> rawSamples\<close> of the missing audioUtils. An
  envelope of zero bytes gives the empty sequence.\<close>

definition spec_decode :: "string \<Rightarrow> real list outcome" where
  "spec_decode wireFrame =
     (case unbase64 wireFrame of
        None \<Rightarrow> Throws ''malformed envelope''
      | Some bytes \<Rightarrow> Returns (map to_float (unpack bytes)))"

text \<open>
  A stand-in for \<open>utils/audioUtils\<close> that keeps payloads apart: every character of the
  payload becomes one byte, and every byte one sample of silence.
\<close>

definition hush :: audio_utils where
  "hush =
     \<lparr>decode = (\<lambda>base64. Returns (replicate (length base64) 0)),
      decodeAudioData = (\<lambda>bytes rate channels.
         Returns \<lparr>channelData = replicate (length bytes) 0, sampleRate = rate\<rparr>)\<rparr>"

text \<open>A service with its output context, and a shorter and a longer frame.\<close>

definition ready :: service where
  "ready = new_service\<lparr>outputAudioContext := Some (AudioContext 24000)\<rparr>"

definition short_frame :: message where
  "short_frame = \<lparr>inlineData = Some ''AAAA'', interrupted = False\<rparr>"

definition long_frame :: message where
  "long_frame = \<lparr>inlineData = Some ''AAAAAAAA'', interrupted = False\<rparr>"

subsection \<open>Reading an interleaving\<close>








section \<open>Properties of the playback schedule\<close>

lemma started_Nil [simp]: "started [] = []"
  by (simp add: started_def)

lemma reported_Nil [simp]: "reported [] = []"
  by (simp add: reported_def)

lemma errors_Nil [simp]: "errors [] = []"
  by (simp add: errors_def)

lemma started_Cons [simp]:
  "started (e # out) = (case e of SourceStart i t \<Rightarrow> [(i, t)] | _ \<Rightarrow> []) @ started out"
  by (simp add: started_def)

lemma reported_Cons [simp]:
  "reported (e # out) = (case e of OnAudioData b \<Rightarrow> [b] | _ \<Rightarrow> []) @ reported out"
  by (simp add: reported_def)

lemma errors_Cons [simp]:
  "errors (e # out) =
     (case e of OnError x \<Rightarrow> [x] | ConsoleError x \<Rightarrow> [x] | Unhandled x \<Rightarrow> [x] | _ \<Rightarrow> []) @ errors out"
  by (simp add: errors_def)

lemma started_append [simp]: "started (xs @ ys) = started xs @ started ys"
  by (simp add: started_def)

lemma reported_append [simp]: "reported (xs @ ys) = reported xs @ reported ys"
  by (simp add: reported_def)

lemma errors_append [simp]: "errors (xs @ ys) = errors xs @ errors ys"
  by (simp add: errors_def)

lemma started_stops [simp]: "started (map SourceStop xs) = []"
  by (induction xs) simp_all

lemma reported_stops [simp]: "reported (map SourceStop xs) = []"
  by (induction xs) simp_all

lemma errors_stops [simp]: "errors (map SourceStop xs) = []"
  by (induction xs) simp_all

lemma run_Cons:
  "run U s (e # es) =
     (fst (run U (fst (step U s e)) es), snd (step U s e) @ snd (run U (fst (step U s e)) es))"
  by (simp split: prod.splits)

lemma handleMessage_enqueue:
  assumes "audio_of U m = Some buf" and "outputAudioContext s = Some ctx"
  shows "handleMessage U now now' s m =
           on_interrupted now' m
             (s\<lparr>created := Suc (created s), sources := sources s @ [created s],
                nextStartTime := max (nextStartTime s) now + duration buf\<rparr>,
              [OnAudioData buf, SourceStart (created s) (max (nextStartTime s) now)])"
  using assms
  by (auto simp: handleMessage_def audio_of_def Let_def split: option.splits outcome.splits if_splits)




lemma spec_enqueue_length [simp]: "length (spec_enqueue n fs) = length fs"
  by (induction n fs rule: spec_enqueue.induct) (simp_all add: Let_def)


text \<open>
  The flush on the paths that reach the last statement of \<open>handleMessage\<close>: a message
  without audio that carries the interrupted flag stops every pending chunk, empties the
  set and sets \<open>nextStartTime\<close> to the clock; the frame enqueued next starts at its own
  clock reading, whatever had been scheduled before.
\<close>

lemma interruption_without_audio:
  assumes "interrupted m" and "inlineData m = None" and "outputAudioContext s = Some ctx"
  shows "handleMessage U now now' s m =
           (s\<lparr>sources := [], nextStartTime := now'\<rparr>, map SourceStop (sources s), None)"
  using assms by (simp add: handleMessage_def on_interrupted_def stopAudioPlayback_def)

lemma enqueue_after_flush:
  assumes "audio_of U m = Some buf" and "\<not> interrupted m" and "outputAudioContext s = Some ctx"
    and "sources s = []" and "nextStartTime s = flushed" and "flushed \<le> now"
  shows "fst (snd (handleMessage U now now' s m)) = [OnAudioData buf, SourceStart (created s) now]"
  using assms by (simp add: handleMessage_enqueue on_interrupted_def max_def)

text \<open>
  C2. A message that carries the interrupted flag together with a payload that decodes to
  no byte: \<open>handleMessage\<close> returns at its length test, before the interruption is looked
  at. The two pending chunks are not stopped, the set is not cleared and
  \<open>nextStartTime\<close> keeps its value.
\<close>

theorem interrupted_empty_payload_not_flushed:
  "handleMessage (silence 1) 7 8 playing \<lparr>inlineData = Some '' '', interrupted = True\<rparr>
     = (playing, [], None) \<and>
   sources playing = [0, 1] \<and> nextStartTime playing = 5"
  by (simp add: handleMessage_def silence_def playing_def new_service_def)






section \<open>Properties of a whole session\<close>

lemma duration_nonneg: "0 \<le> duration b"
  by (simp add: duration_def)

lemma nst_disconnect: "nextStartTime (fst (disconnect failing s)) = nextStartTime s"
  by (simp add: disconnect_def split: prod.splits option.splits session_promise.splits)

lemma nst_connect_failed: "nextStartTime (fst (connect_failed failing e s)) = nextStartTime s"
  using nst_disconnect [of failing s]
  by (auto simp: connect_failed_def split: prod.splits thrown.splits)

lemma nst_connect: "nextStartTime (fst (connect env failing s)) = nextStartTime s"
  by (simp add: connect_def nst_connect_failed Let_def split: outcome.splits awaited.splits thrown.splits)

lemma nst_connect_settled: "nextStartTime (fst (connect_settled r failing s)) = nextStartTime s"
  by (simp add: connect_settled_def nst_connect_failed
      split: outcome.splits awaited.splits thrown.splits option.splits session_promise.splits)

lemma fst_unhandled: "fst (unhandled r) = fst r"
  by (simp add: unhandled_def split: prod.splits)

lemma nst_on_interrupted:
  "nextStartTime (fst (on_interrupted now' m r)) =
     (if interrupted m \<and> outputAudioContext (fst r) \<noteq> None then now' else nextStartTime (fst r))"
  by (auto simp: on_interrupted_def stopAudioPlayback_def split: option.splits)

lemma nst_handleMessage:
  "nextStartTime s \<le> nextStartTime (fst (handleMessage U now now' s m)) \<or>
   (interrupted m \<and> nextStartTime (fst (handleMessage U now now' s m)) = now')"
  using duration_nonneg
  by (auto simp: handleMessage_def nst_on_interrupted Let_def add_nonneg_nonneg max.coboundedI1
      split: option.splits outcome.splits
      intro: add_increasing2)

lemma nst_step:
  "nextStartTime s \<le> nextStartTime (fst (step U s e)) \<or>
   interruption e = Some (nextStartTime (fst (step U s e)))"
proof (cases e)
  case (Message m now now')
  then show ?thesis using nst_handleMessage [of s U now now' m] by (auto simp: fst_unhandled)
qed (simp_all add: fst_unhandled nst_connect nst_connect_settled nst_disconnect
      handleOpen_def onerror_def onclose_def source_ended_def split: option.splits)

lemma nst_run:
  "\<forall>e \<in> set es. interruption e = None \<Longrightarrow> nextStartTime s \<le> nextStartTime (fst (run U s es))"
proof (induction es arbitrary: s)
  case Nil
  then show ?case by simp
next
  case (Cons e es)
  have "nextStartTime s \<le> nextStartTime (fst (step U s e))"
    using nst_step [of s U e] Cons.prems by simp
  also have "\<dots> \<le> nextStartTime (fst (run U (fst (step U s e)) es))"
    using Cons.prems by (intro Cons.IH) simp
  finally show ?case by (simp add: run_Cons del: run.simps step.simps)
qed

lemma nst_begin:
  "nextStartTime s \<le> nextStartTime (fst (fst (handleMessage_begin U now now' s m))) \<or>
   (interrupted m \<and> nextStartTime (fst (fst (handleMessage_begin U now now' s m))) = now')"
  by (auto simp: handleMessage_begin_def nst_on_interrupted split: option.splits outcome.splits)

lemma nst_resume:
  "nextStartTime s \<le> nextStartTime (fst (handleMessage_resume U now' s m encoded)) \<or>
   (interrupted m \<and> nextStartTime (fst (handleMessage_resume U now' s m encoded)) = now')"
  using duration_nonneg
  by (auto simp: handleMessage_resume_def nst_on_interrupted Let_def split: outcome.splits awaited.splits thrown.splits)

lemma nst_turn_step:
  "nextStartTime s \<le> nextStartTime (fst (fst (turn_step U (s, pending) t))) \<or>
   turn_interruption pending t = Some (nextStartTime (fst (fst (turn_step U (s, pending) t))))"
proof (cases t)
  case (Arrives m now now')
  then show ?thesis
    using nst_begin [of s U now now' m]
    by (auto simp: fst_unhandled split: prod.splits option.splits)
next
  case (Completes i now')
  then show ?thesis
    using nst_resume [of s U now' "call_message (pending ! i)" "call_encoded (pending ! i)"]
    by (auto simp: fst_unhandled split: prod.splits dest: arg_cong [where f = fst])
qed

text \<open>
  C5. No event of a session lowers \<open>nextStartTime\<close>, but for a message that carries the
  interrupted flag, whose flush sets it to the clock it reads: after any event the value
  is at least what it was, or the event is such a message and the value is that clock.
  Hence over any sequence of events without an interrupted message the value never
  decreases. The same holds turn by turn when calls of \<open>handleMessage\<close> are suspended
  at their await and resumed in any order.
\<close>

theorem nextStartTime_monotone:
  "(nextStartTime s \<le> nextStartTime (fst (step U s e)) \<or>
    interruption e = Some (nextStartTime (fst (step U s e)))) \<and>
   ((\<forall>e \<in> set es. interruption e = None) \<longrightarrow>
      nextStartTime s \<le> nextStartTime (fst (run U s es))) \<and>
   (nextStartTime s \<le> nextStartTime (fst (fst (turn_step U (s, pending) t))) \<or>
    turn_interruption pending t = Some (nextStartTime (fst (fst (turn_step U (s, pending) t)))))"
  using nst_step nst_run nst_turn_step by blast

text \<open>
  A frame enqueued at clock 7 moves the value up from 5; an interruption read at clock 3
  sets it to 3.
\<close>

theorem nextStartTime_monotone_witness:
  "interruption (Message frame 7 8) = None \<and>
   nextStartTime playing \<le> nextStartTime (fst (run (silence 4800) playing [Message frame 7 8])) \<and>
   nextStartTime (fst (step (silence 4800) playing
      (Message \<lparr>inlineData = None, interrupted = True\<rparr> 3 3))) = 3"
  using nextStartTime_monotone [where s = playing and U = "silence 4800"
      and e = "Message \<lparr>inlineData = None, interrupted = True\<rparr> 3 3" and es = "[Message frame 7 8]"
      and pending = "[]" and t = "Completes 0 0"]
  by (simp add: frame_def playing_def new_service_def handleMessage_def on_interrupted_def
      stopAudioPlayback_def unhandled_def)

lemma on_errors_Nil [simp]: "on_errors [] = []"
  by (simp add: on_errors_def)

lemma on_errors_Cons [simp]:
  "on_errors (e # out) = (case e of OnError x \<Rightarrow> [x] | _ \<Rightarrow> []) @ on_errors out"
  by (simp add: on_errors_def)

lemma on_errors_append [simp]: "on_errors (xs @ ys) = on_errors xs @ on_errors ys"
  by (simp add: on_errors_def)

lemma on_closes_Nil [simp]: "on_closes [] = 0"
  by (simp add: on_closes_def)

lemma on_closes_Cons [simp]:
  "on_closes (e # out) = (if e = OnClose then 1 else 0) + on_closes out"
  by (simp add: on_closes_def)

lemma on_closes_append [simp]: "on_closes (xs @ ys) = on_closes xs + on_closes ys"
  by (simp add: on_closes_def)

lemma attempt_quiet: "on_errors (fst (attempt failing rs)) = [] \<and> on_closes (fst (attempt failing rs)) = 0"
  by (induction rs) (auto split: option.splits prod.splits)



lemma disconnect_quiet:
  "on_errors (fst (snd (disconnect failing s))) = [] \<and> on_closes (fst (snd (disconnect failing s))) = 0"
  using attempt_quiet [of failing "releases s"]
  by (auto simp: disconnect_def close_session_def split: prod.splits option.splits session_promise.splits)

lemma connect_setup_failure:
  assumes "newInput env = Returns ic" and "newOutput env = Returns oc"
    and "setup_failure env = Some e"
  shows "connect env failing s =
           connect_failed failing e (s\<lparr>inputAudioContext := Some ic, outputAudioContext := Some oc\<rparr>)"
  using assms
  by (auto simp: connect_def setup_failure_def Let_def split: outcome.splits awaited.splits thrown.splits if_splits)

lemma connect_call_failure:
  assumes "newInput env = Returns ic" and "newOutput env = Returns oc"
    and "setup_failure env = None" and "liveConnect env = Fails e"
  shows "\<exists>tracks. connect env failing s =
           connect_failed failing e
             (s\<lparr>inputAudioContext := Some ic, outputAudioContext := Some oc,
                stream := Some tracks\<rparr>)"
  using assms
  by (auto simp: connect_def setup_failure_def Let_def split: outcome.splits awaited.splits thrown.splits if_splits)












section \<open>Properties of teardown and setup\<close>

lemma attempt_ok:
  "\<forall>r \<in> set rs. map_of failing r = None \<Longrightarrow> attempt failing rs = (map Release rs, None)"
  by (induction rs) simp_all

lemma attempt_fail:
  "\<forall>x \<in> set pre. map_of failing x = None \<Longrightarrow> map_of failing r = Some e \<Longrightarrow>
   attempt failing (pre @ r # post) = (map Release (pre @ [r]), Some e)"
  by (induction pre) simp_all

lemma disconnect_ok:
  assumes "\<forall>r \<in> set (releases s). map_of failing r = None"
  shows "disconnect failing s = (disconnected s, map Release (releases s) @ close_request s, None)"
  using attempt_ok [OF assms]
  by (simp add: disconnect_def disconnected_def close_request_def
      split: option.splits session_promise.splits)

lemma fields_disconnected [simp]:
  "stream (disconnected s) = stream s"
  "processor (disconnected s) = processor s"
  "inputAudioContext (disconnected s) = inputAudioContext s"
  "outputAudioContext (disconnected s) = outputAudioContext s"
  by (simp_all add: disconnected_def split: option.splits session_promise.splits)

lemma releases_disconnected [simp]: "releases (disconnected s) = releases s"
  by (simp add: releases_def)

lemma close_request_disconnected [simp]: "close_request (disconnected s) = close_request s"
  by (simp add: disconnected_def close_request_def split: option.splits session_promise.splits)

lemma disconnect_many:
  assumes "\<forall>r \<in> set (releases s). map_of failing r = None"
  shows "snd (run U s (replicate n (Disconnect failing))) =
           concat (replicate n (map Release (releases s) @ close_request s)) \<and>
         fst (run U s (replicate n (Disconnect failing))) = (disconnected ^^ n) s"
  using assms
proof (induction n arbitrary: s)
  case 0
  then show ?case by simp
next
  case (Suc n)
  have st: "step U s (Disconnect failing) =
      (disconnected s, map Release (releases s) @ close_request s)"
    using disconnect_ok [OF Suc.prems] by (simp add: unhandled_def)
  have "\<forall>r \<in> set (releases (disconnected s)). map_of failing r = None"
    using Suc.prems by simp
  from Suc.IH [OF this] show ?case
    by (simp add: run_Cons st funpow_swap1 del: run.simps step.simps)
qed

lemma releases_explicit:
  "releases s =
     map TrackStop (case stream s of None \<Rightarrow> [] | Some tracks \<Rightarrow> tracks) @
     (if processor s = None then [] else [ProcessorDisconnect]) @
     (if inputAudioContext s = None then [] else [CloseInput]) @
     (if outputAudioContext s = None then [] else [CloseOutput])"
  by (simp add: releases_def split: option.splits)

lemma close_request_explicit:
  "close_request s =
     (case sessionPromise s of
        Some (Fulfilled sess) \<Rightarrow> if closeIsFunction sess then [Release SessionClose] else []
      | _ \<Rightarrow> [])"
  by (simp add: close_request_def close_session_def split: option.splits session_promise.splits)

lemma disconnected_explicit:
  "disconnected s =
     s\<lparr>sessionPromise :=
         (case sessionPromise s of Some (Pending k) \<Rightarrow> Some (Pending (Suc k)) | p \<Rightarrow> p)\<rparr>"
  by (simp add: disconnected_def split: option.splits session_promise.splits)

lemma disconnected_pending:
  "sessionPromise s = Some (Pending k) \<Longrightarrow>
   (disconnected ^^ n) s = s\<lparr>sessionPromise := Some (Pending (k + n))\<rparr>"
proof (induction n)
  case 0
  then show ?case by simp
next
  case (Suc n)
  then show ?case by (simp add: disconnected_def)
qed

text \<open>
  C3, as the code has it. When none of the release calls it makes throws, \<open>disconnect\<close>
  raises nothing: it stops every track, disconnects the processor and closes the input and
  the output context, each when it is there and in this order, and then asks the session
  to close, at once when the session promise is fulfilled and the session has a
  \<open>close\<close> function; a throwing \<open>close\<close> is swallowed. It changes no field but the
  reactions counted on a pending promise, so \<open>n\<close> calls in a row do the same \<open>n\<close>
  times; when a promise that was pending with \<open>k\<close> reactions is then fulfilled, the
  session is asked to close once for each of the \<open>k + n\<close> reactions. The four releases
  are guarded against an absent resource only: the first one that throws ends the call
  with that error, and the releases after it are not attempted.
\<close>

theorem disconnect_releases:
  "(let due = map TrackStop (case stream s of None \<Rightarrow> [] | Some tracks \<Rightarrow> tracks) @
              (if processor s = None then [] else [ProcessorDisconnect]) @
              (if inputAudioContext s = None then [] else [CloseInput]) @
              (if outputAudioContext s = None then [] else [CloseOutput]);
        asked = (case sessionPromise s of
                   Some (Fulfilled sess) \<Rightarrow>
                     if closeIsFunction sess then [Release SessionClose] else []
                 | _ \<Rightarrow> [])
    in ((\<forall>r \<in> set due. map_of failing r = None) \<longrightarrow>
          disconnect failing s =
            (s\<lparr>sessionPromise :=
                 (case sessionPromise s of Some (Pending k) \<Rightarrow> Some (Pending (Suc k)) | p \<Rightarrow> p)\<rparr>,
             map Release due @ asked, None) \<and>
          snd (run U s (replicate n (Disconnect failing))) =
            concat (replicate n (map Release due @ asked)) \<and>
          (\<forall>k. sessionPromise s = Some (Pending k) \<longrightarrow>
             connect_settled (Gives sess') failing'
                 (fst (run U s (replicate n (Disconnect failing)))) =
               (s\<lparr>sessionPromise := Some (Fulfilled sess')\<rparr>,
                concat (replicate (k + n)
                  (if closeIsFunction sess' then [Release SessionClose] else [])),
                None))) \<and>
       ((\<forall>x \<in> set pre. map_of failing x = None) \<and> map_of failing r = Some e \<and>
        due = pre @ r # post \<longrightarrow>
          disconnect failing s = (s, map Release (pre @ [r]), Some e)))"
proof -
  let ?due = "map TrackStop (case stream s of None \<Rightarrow> [] | Some tracks \<Rightarrow> tracks) @
              (if processor s = None then [] else [ProcessorDisconnect]) @
              (if inputAudioContext s = None then [] else [CloseInput]) @
              (if outputAudioContext s = None then [] else [CloseOutput])"
  let ?asked = "case sessionPromise s of
                   Some (Fulfilled sess) \<Rightarrow>
                     if closeIsFunction sess then [Release SessionClose] else []
                 | _ \<Rightarrow> []"
  have due: "releases s = ?due" by (rule releases_explicit)
  have asked: "close_request s = ?asked" by (rule close_request_explicit)
  have one: "disconnect failing s =
            (s\<lparr>sessionPromise :=
                 (case sessionPromise s of Some (Pending k) \<Rightarrow> Some (Pending (Suc k)) | p \<Rightarrow> p)\<rparr>,
             map Release ?due @ ?asked, None)"
    if ok: "\<forall>r \<in> set ?due. map_of failing r = None"
  proof -
    have "\<forall>r \<in> set (releases s). map_of failing r = None" using ok by (simp only: due)
    from disconnect_ok [OF this] show ?thesis
      by (simp only: due asked disconnected_explicit)
  qed
  have many: "snd (run U s (replicate n (Disconnect failing))) =
            concat (replicate n (map Release ?due @ ?asked))"
    if ok: "\<forall>r \<in> set ?due. map_of failing r = None"
  proof -
    have "\<forall>r \<in> set (releases s). map_of failing r = None" using ok by (simp only: due)
    from disconnect_many [OF this, of U n] show ?thesis
      by (simp only: due asked)
  qed
  have later: "connect_settled (Gives sess') failing'
                 (fst (run U s (replicate n (Disconnect failing)))) =
               (s\<lparr>sessionPromise := Some (Fulfilled sess')\<rparr>,
                concat (replicate (k + n)
                  (if closeIsFunction sess' then [Release SessionClose] else [])),
                None)"
    if ok: "\<forall>r \<in> set ?due. map_of failing r = None" and p: "sessionPromise s = Some (Pending k)"
    for k
  proof -
    have "\<forall>r \<in> set (releases s). map_of failing r = None" using ok by (simp only: due)
    from disconnect_many [OF this, of U n]
    have "fst (run U s (replicate n (Disconnect failing))) =
            s\<lparr>sessionPromise := Some (Pending (k + n))\<rparr>"
      using disconnected_pending [OF p, of n] by simp
    then show ?thesis by (simp add: connect_settled_def close_session_def)
  qed
  have stop: "disconnect failing s = (s, map Release (pre @ [r]), Some e)"
    if "(\<forall>x \<in> set pre. map_of failing x = None) \<and> map_of failing r = Some e \<and>
        ?due = pre @ r # post"
  proof -
    have "releases s = pre @ r # post" using that by (simp only: due)
    then show ?thesis
      using that attempt_fail [of pre failing r e post] by (simp add: disconnect_def)
  qed
  show ?thesis
    unfolding Let_def using one many later stop by blast
qed

text \<open>
  Two calls on an open session whose \<open>close\<close> throws; one call whose processor fails to
  disconnect; two calls while the session promise is pending, then its fulfilment.
\<close>

theorem disconnect_releases_witness:
  "disconnect [(SessionClose, ''closed already'')] live =
     (live, [Release (TrackStop 0), Release ProcessorDisconnect, Release CloseInput,
             Release CloseOutput, Release SessionClose], None) \<and>
   snd (run (silence 1) live (replicate 2 (Disconnect [(SessionClose, ''closed already'')]))) =
     [Release (TrackStop 0), Release ProcessorDisconnect, Release CloseInput,
      Release CloseOutput, Release SessionClose,
      Release (TrackStop 0), Release ProcessorDisconnect, Release CloseInput,
      Release CloseOutput, Release SessionClose] \<and>
   disconnect [(ProcessorDisconnect, ''boom'')] live =
     (live, [Release (TrackStop 0), Release ProcessorDisconnect], Some ''boom'') \<and>
   connect_settled (Gives \<lparr>closeIsFunction = True\<rparr>) []
       (fst (run (silence 1) (live\<lparr>sessionPromise := Some (Pending 0)\<rparr>)
          (replicate 2 (Disconnect [])))) =
     (live, [Release SessionClose, Release SessionClose], None)"
  using disconnect_releases [where s = live and failing = "[(SessionClose, ''closed already'')]"
      and n = 2 and U = "silence 1" and pre = "[]" and r = "TrackStop 0" and e = "''x''"
      and post = "[]" and sess' = "\<lparr>closeIsFunction = True\<rparr>" and failing' = "[]"]
    disconnect_releases [where s = live and failing = "[(ProcessorDisconnect, ''boom'')]"
      and n = 0 and U = "silence 1" and pre = "[TrackStop 0]" and r = ProcessorDisconnect
      and e = "''boom''" and post = "[CloseInput, CloseOutput]"
      and sess' = "\<lparr>closeIsFunction = True\<rparr>" and failing' = "[]"]
    disconnect_releases [where s = "live\<lparr>sessionPromise := Some (Pending 0)\<rparr>" and failing = "[]"
      and n = 2 and U = "silence 1" and pre = "[]" and r = "TrackStop 0" and e = "''x''"
      and post = "[]" and sess' = "\<lparr>closeIsFunction = True\<rparr>" and failing' = "[]"]
  by (simp add: live_def Let_def numeral_2_eq_2 disconnect_def releases_def close_session_def
      connect_settled_def unhandled_def)

text \<open>
  C3 as stated fails: when stopping the track throws, \<open>disconnect\<close> raises the error and
  neither the processor nor the two contexts are released.
\<close>

theorem release_failure_stops_teardown:
  "disconnect [(TrackStop 0, ''boom'')] live = (live, [Release (TrackStop 0)], Some ''boom'') \<and>
   releases live = [TrackStop 0, ProcessorDisconnect, CloseInput, CloseOutput]"
  by (simp add: disconnect_def live_def releases_def)

lemma disconnect_fields:
  "stream (fst (disconnect failing s)) = stream s \<and>
   processor (fst (disconnect failing s)) = processor s \<and>
   inputAudioContext (fst (disconnect failing s)) = inputAudioContext s"
  by (simp add: disconnect_def split: prod.splits option.splits session_promise.splits)

lemma disconnect_no_connect: "LiveConnect \<notin> set (fst (snd (disconnect failing s)))"
proof -
  have a: "LiveConnect \<notin> set (fst (attempt failing rs))" for rs
    by (induction rs) (auto split: option.splits prod.splits)
  show ?thesis
    using a [of "releases s"]
    by (auto simp: disconnect_def close_session_def split: prod.splits option.splits session_promise.splits)
qed

lemma connect_failed_fields:
  "stream (fst (connect_failed failing err s)) = stream s \<and>
   processor (fst (connect_failed failing err s)) = processor s \<and>
   inputAudioContext (fst (connect_failed failing err s)) = inputAudioContext s"
  using disconnect_fields [of failing s]
  by (auto simp: connect_failed_def split: prod.splits thrown.splits)

lemma connect_failed_result:
  "stream (fst (connect_failed failing (Thrown e) s)) = stream s \<and>
   processor (fst (connect_failed failing (Thrown e) s)) = processor s \<and>
   inputAudioContext (fst (connect_failed failing (Thrown e) s)) = inputAudioContext s \<and>
   on_errors (fst (snd (connect_failed failing (Thrown e) s))) = [cause e] \<and>
   LiveConnect \<notin> set (fst (snd (connect_failed failing (Thrown e) s))) \<and>
   snd (snd (connect_failed failing (Thrown e) s)) = None"
  using disconnect_fields [of failing s] disconnect_no_connect [of failing s]
    disconnect_quiet [of failing s]
  by (auto simp: connect_failed_def cause_def split: prod.splits option.splits)

lemma step_keeps_idle:
  assumes "\<not> is_connect e" and "stream s = None" and "processor s = None"
  shows "stream (fst (step U s e)) = None \<and> processor (fst (step U s e)) = None"
proof (cases e)
  case (Connect env failing)
  then show ?thesis using assms by simp
next
  case (Settled r failing)
  then show ?thesis
    using assms connect_failed_fields [of failing _ "s\<lparr>sessionPromise := Some (Rejected _)\<rparr>"]
    by (auto simp: fst_unhandled connect_settled_def
        split: option.splits session_promise.splits awaited.splits)
next
  case Open
  then show ?thesis using assms by (simp add: handleOpen_def split: option.splits)
next
  case (Message m now now')
  then show ?thesis
    using assms
    by (auto simp: fst_unhandled handleMessage_def on_interrupted_def stopAudioPlayback_def Let_def
        split: option.splits outcome.splits)
next
  case (Disconnect failing)
  then show ?thesis using assms disconnect_fields [of failing s] by (simp add: fst_unhandled)
qed (use assms in \<open>simp_all add: onerror_def onclose_def source_ended_def\<close>)

lemma run_keeps_idle:
  assumes "\<forall>e \<in> set es. \<not> is_connect e" and "stream s = None" and "processor s = None"
  shows "processor (fst (run U s es)) = None"
  using assms
proof (induction es arbitrary: s)
  case Nil
  then show ?case by simp
next
  case (Cons e es)
  have "stream (fst (step U s e)) = None \<and> processor (fst (step U s e)) = None"
    using Cons.prems by (intro step_keeps_idle) simp_all
  then show ?case
    using Cons.IH [of "fst (step U s e)"] Cons.prems(1)
    by (simp add: run_Cons del: run.simps step.simps)
qed

lemma step_keeps_processor:
  assumes "e \<noteq> Open"
  shows "processor (fst (step U s e)) = processor s"
proof (cases e)
  case (Connect env failing)
  have keep: "processor (fst (connect_failed failing e s')) = processor s'" for e s'
    using connect_failed_fields [of failing e s'] by simp
  have "processor (fst (connect env failing s)) = processor s"
    by (simp add: connect_def keep Let_def split: outcome.splits awaited.splits)
  then show ?thesis using Connect by (simp add: fst_unhandled)
next
  case (Settled r failing)
  then show ?thesis
    using connect_failed_fields [of failing _ "s\<lparr>sessionPromise := Some (Rejected _)\<rparr>"]
    by (auto simp: fst_unhandled connect_settled_def
        split: option.splits session_promise.splits awaited.splits)
next
  case (Message m now now')
  then show ?thesis
    by (auto simp: fst_unhandled handleMessage_def on_interrupted_def stopAudioPlayback_def Let_def
        split: option.splits outcome.splits)
next
  case (Disconnect failing)
  then show ?thesis using disconnect_fields [of failing s] by (simp add: fst_unhandled)
qed (use assms in \<open>simp_all add: onerror_def onclose_def source_ended_def\<close>)

lemma run_keeps_processor:
  assumes "\<forall>e \<in> set es. e \<noteq> Open"
  shows "processor (fst (run U s es)) = processor s"
  using assms
proof (induction es arbitrary: s)
  case Nil
  then show ?case by simp
next
  case (Cons e es)
  have "processor (fst (step U s e)) = processor s"
    using Cons.prems by (intro step_keeps_processor) simp
  then show ?case
    using Cons.IH [of "fst (step U s e)"] Cons.prems
    by (simp add: run_Cons del: run.simps step.simps)
qed

lemma foldl_app_callback:
  "errorMsg (foldl app_callback a out) =
     (if on_errors out = [] then errorMsg a else Some (last (on_errors out)))"
proof (induction out arbitrary: a)
  case Nil
  then show ?case by simp
next
  case (Cons x out)
  show ?case by (cases x) (simp_all add: Cons.IH)
qed

text \<open>
  C4, as the code has it. A missing key never reaches \<open>connect\<close>: \<open>startSession\<close>
  sets the error message and the ERROR state itself, constructs no service and calls no
  \<open>onError\<close>. A failure to resume a context or to get the microphone, a throwing
  \<open>client.live.connect\<close> and a rejected session promise, when the value thrown is not
  \<open>null\<close> or \<open>undefined\<close>, are each reported by one call of \<open>onError\<close> with the
  error's message (or a default when it has none), and nothing is thrown out of
  \<open>connect\<close>; through the
  application's callback the message becomes the displayed error. After a failure before
  \<open>client.live.connect\<close> on a service without stream and processor, no later event
  short of another \<open>connect\<close> installs the capture pipeline. In general the pipeline is
  installed by \<open>handleOpen\<close> only: a run without an open event leaves the processor as
  it was.
\<close>

theorem setup_failures_reported:
  "((apiKey = None \<or> apiKey = Some []) \<longrightarrow>
      startSession apiKey env failing a =
        (a\<lparr>errorMsg := Some ''API Key not found in environment.'', state := ERROR\<rparr>, [], None)) \<and>
   (newInput env = Returns ic \<and> newOutput env = Returns oc \<and> setup_failure env = Some (Thrown e) \<longrightarrow>
      (case connect env failing s of (s', out, raised) \<Rightarrow>
         raised = None \<and> on_errors out = [cause e] \<and> LiveConnect \<notin> set out \<and>
         processor s' = processor s \<and> stream s' = stream s \<and>
         (stream s = None \<and> processor s = None \<longrightarrow>
            (\<forall>es. (\<forall>x \<in> set es. \<not> is_connect x) \<longrightarrow> processor (fst (run U s' es)) = None))) \<and>
      (apiKey = Some k \<and> k \<noteq> [] \<longrightarrow>
         errorMsg (fst (startSession apiKey env failing a)) = Some (cause e))) \<and>
   (newInput env = Returns ic \<and> newOutput env = Returns oc \<and> setup_failure env = None \<and>
    liveConnect env = Fails (Thrown e) \<longrightarrow>
      (case connect env failing s of (s', out, raised) \<Rightarrow>
         raised = None \<and> on_errors out = [cause e] \<and> LiveConnect \<notin> set out \<and>
         processor s' = processor s)) \<and>
   (sessionPromise s = Some (Pending n) \<longrightarrow>
      (case connect_settled (Fails (Thrown e)) failing s of (s', out, raised) \<Rightarrow>
         raised = None \<and> on_errors out = [cause e] \<and> processor s' = processor s)) \<and>
   ((\<forall>x \<in> set es. x \<noteq> Open) \<longrightarrow> processor (fst (run U s es)) = processor s)"
proof (intro conjI impI)
  assume "apiKey = None \<or> apiKey = Some []"
  then show "startSession apiKey env failing a =
        (a\<lparr>errorMsg := Some ''API Key not found in environment.'', state := ERROR\<rparr>, [], None)"
    by (auto simp: startSession_def)
next
  assume h: "newInput env = Returns ic \<and> newOutput env = Returns oc \<and> setup_failure env = Some (Thrown e)"
  define s0 where "s0 = s\<lparr>inputAudioContext := Some ic, outputAudioContext := Some oc\<rparr>"
  have c: "connect env failing s = connect_failed failing (Thrown e) s0"
    unfolding s0_def using h by (intro connect_setup_failure) simp_all
  obtain s' out raised where r: "connect_failed failing (Thrown e) s0 = (s', out, raised)"
    by (cases "connect_failed failing (Thrown e) s0")
  have f: "raised = None" "on_errors out = [cause e]" "LiveConnect \<notin> set out"
    "processor s' = processor s" "stream s' = stream s"
    using connect_failed_result [of failing e s0] r by (simp_all add: s0_def)
  have idle: "processor (fst (run U s' es)) = None"
    if "stream s = None \<and> processor s = None" and "\<forall>x \<in> set es. \<not> is_connect x" for es
    using that f by (intro run_keeps_idle) simp_all
  show "case connect env failing s of (s', out, raised) \<Rightarrow>
         raised = None \<and> on_errors out = [cause e] \<and> LiveConnect \<notin> set out \<and>
         processor s' = processor s \<and> stream s' = stream s \<and>
         (stream s = None \<and> processor s = None \<longrightarrow>
            (\<forall>es. (\<forall>x \<in> set es. \<not> is_connect x) \<longrightarrow> processor (fst (run U s' es)) = None))"
    using f idle by (simp add: c r)
next
  assume h: "newInput env = Returns ic \<and> newOutput env = Returns oc \<and> setup_failure env = Some (Thrown e)"
    and k: "apiKey = Some k \<and> k \<noteq> []"
  define s0 where "s0 = new_service\<lparr>inputAudioContext := Some ic, outputAudioContext := Some oc\<rparr>"
  have c: "connect env failing new_service = connect_failed failing (Thrown e) s0"
    unfolding s0_def using h by (intro connect_setup_failure) simp_all
  obtain s' out raised where r: "connect_failed failing (Thrown e) s0 = (s', out, raised)"
    by (cases "connect_failed failing (Thrown e) s0")
  have "on_errors out = [cause e]"
    using connect_failed_result [of failing e s0] r by simp
  then show "errorMsg (fst (startSession apiKey env failing a)) = Some (cause e)"
    using k by (simp add: startSession_def c r foldl_app_callback)
next
  assume "newInput env = Returns ic \<and> newOutput env = Returns oc \<and> setup_failure env = None \<and>
    liveConnect env = Fails (Thrown e)"
  then obtain tracks where c: "connect env failing s =
      connect_failed failing (Thrown e)
        (s\<lparr>inputAudioContext := Some ic, outputAudioContext := Some oc, stream := Some tracks\<rparr>)"
    using connect_call_failure [of env ic oc "Thrown e" failing s] by blast
  define s0 where
    "s0 = s\<lparr>inputAudioContext := Some ic, outputAudioContext := Some oc, stream := Some tracks\<rparr>"
  obtain s' out raised where r: "connect_failed failing (Thrown e) s0 = (s', out, raised)"
    by (cases "connect_failed failing (Thrown e) s0")
  have "raised = None" "on_errors out = [cause e]" "LiveConnect \<notin> set out"
    "processor s' = processor s"
    using connect_failed_result [of failing e s0] r by (simp_all add: s0_def)
  then show "case connect env failing s of (s', out, raised) \<Rightarrow>
         raised = None \<and> on_errors out = [cause e] \<and> LiveConnect \<notin> set out \<and>
         processor s' = processor s"
    using c r by (simp add: s0_def)
next
  assume p: "sessionPromise s = Some (Pending n)"
  obtain s' out raised where r:
    "connect_failed failing (Thrown e) (s\<lparr>sessionPromise := Some (Rejected (Thrown e))\<rparr>) = (s', out, raised)"
    by (cases "connect_failed failing (Thrown e) (s\<lparr>sessionPromise := Some (Rejected (Thrown e))\<rparr>)")
  show "case connect_settled (Fails (Thrown e)) failing s of (s', out, raised) \<Rightarrow>
         raised = None \<and> on_errors out = [cause e] \<and> processor s' = processor s"
    using connect_failed_result [of failing e "s\<lparr>sessionPromise := Some (Rejected (Thrown e))\<rparr>"] r p
    by (simp add: connect_settled_def)
next
  assume "\<forall>x \<in> set es. x \<noteq> Open"
  then show "processor (fst (run U s es)) = processor s"
    by (rule run_keeps_processor)
qed

text \<open>
  No key; a refused microphone, followed by an open and a close event; a session promise
  rejected with an error without message, and one rejected after a network error; a
  call of \<open>client.live.connect\<close> that throws.
\<close>

theorem setup_failures_reported_witness:
  "startSession None denied [] activated =
     (activated\<lparr>errorMsg := Some ''API Key not found in environment.'', state := ERROR\<rparr>, [], None) \<and>
   on_errors (fst (snd (connect denied [] new_service))) = [''Permission denied''] \<and>
   snd (snd (connect denied [] new_service)) = None \<and>
   processor (fst (run (silence 1) (fst (connect denied [] new_service)) [Open, NetClose])) = None \<and>
   errorMsg (fst (startSession (Some ''key'') denied [] activated)) = Some ''Permission denied'' \<and>
   on_errors (fst (snd (connect_settled (Fails (Thrown [])) []
      (fst (connect granted [] new_service))))) = [''Failed to initialize connection''] \<and>
   processor (fst (run (silence 1) (fst (connect granted [] new_service))
      [NetError, Settled (Fails (Thrown ''handshake failed'')) []])) = None \<and>
   on_errors (fst (snd (connect (granted\<lparr>liveConnect := Fails (Thrown ''offline'')\<rparr>) [] new_service))) =
     [''offline'']"
  using setup_failures_reported [where apiKey = None and env = denied and failing = "[]"
      and a = activated and ic = "AudioContext 16000" and oc = "AudioContext 24000"
      and e = "''Permission denied''" and s = new_service and U = "silence 1"
      and es = "[Open, NetClose]" and k = "''key''" and n = 0]
    setup_failures_reported [where apiKey = "Some ''key''" and env = denied and failing = "[]"
      and a = activated and ic = "AudioContext 16000" and oc = "AudioContext 24000"
      and e = "''Permission denied''" and s = new_service and U = "silence 1"
      and es = "[Open, NetClose]" and k = "''key''" and n = 0]
    setup_failures_reported [where apiKey = None and env = granted and failing = "[]"
      and a = activated and ic = "AudioContext 16000" and oc = "AudioContext 24000"
      and e = "[]" and s = "fst (connect granted [] new_service)" and U = "silence 1"
      and es = "[NetError, Settled (Fails (Thrown ''handshake failed'')) []]" and k = "''key''" and n = 0]
    setup_failures_reported [where apiKey = None
      and env = "granted\<lparr>liveConnect := Fails (Thrown ''offline'')\<rparr>" and failing = "[]"
      and a = activated and ic = "AudioContext 16000" and oc = "AudioContext 24000"
      and e = "''offline''" and s = new_service and U = "silence 1"
      and es = "[]" and k = "''key''" and n = 0]
  by (simp add: denied_def granted_def activated_def new_service_def setup_failure_def cause_def
      connect_def connect_failed_def connect_settled_def disconnect_def releases_def
      startSession_def handleOpen_def onclose_def onerror_def unhandled_def Let_def)

text \<open>
  C4 as stated fails: without a key (undefined or empty) \<open>onError\<close> is not called;
  when the transport signals open before the session promise rejects, the capture
  pipeline has been installed by the time the failure is reported; and when the session
  promise rejects with \<open>undefined\<close>, \<open>onError\<close> is not called, nothing is released
  and a TypeError is thrown out of \<open>connect\<close>.
\<close>

theorem missing_credential_not_via_onError:
  "on_errors (fst (snd (startSession None granted [] activated))) = [] \<and>
   fst (snd (startSession (Some []) granted [] activated)) = [] \<and>
   processor (fst (run (silence 1) new_service
      [Connect granted [], Open, Settled (Fails (Thrown ''handshake failed'')) []])) =
     Some (ScriptProcessor 4096 1 1) \<and>
   snd (connect_settled (Fails Nullish) [] (fst (connect granted [] new_service))) =
     ([ConsoleError ''Connection Failed''],
      Some ''TypeError: err.message read on null or undefined'')"
  by (simp add: startSession_def granted_def new_service_def connect_def connect_settled_def
      connect_failed_def disconnect_def releases_def handleOpen_def unhandled_def Let_def)

section \<open>Properties of the PCM codec\<close>

lemma base64_value_char: "n < 64 \<Longrightarrow> base64_value (base64_char n) = Some n"
  by (auto simp: base64_value_def base64_char_def Let_def)

lemma base64_char_not_pad: "n < 64 \<Longrightarrow> base64_char n \<noteq> CHR ''=''"
proof
  assume n: "n < 64" and "base64_char n = CHR ''=''"
  then have "base64_value (base64_char n) = base64_value (CHR ''='')" by simp
  then show False using n by (simp add: base64_value_char) (simp add: base64_value_def)
qed

lemma join_split: 
  "push_bit 8 (ucast (ucast (drop_bit 8 v :: 16 word) :: byte)) OR ucast (ucast v :: byte) = v"
  by (rule bit_word_eqI) (auto simp: bit_simps)

lemma unpack_pack: "unpack (concat (map pack vs)) = vs"
  by (induction vs) (simp_all add: pack_def join_split)

lemma hi_div:
  fixes x y :: nat
  assumes "y < n"
  shows "(x * n + y) div n = x" and "(x * n + y) mod n = y"
  using assms by simp_all

lemma sextets:
  fixes a b c :: nat
  assumes "a < 256" "b < 256" "c < 256"
  shows "a div 4 < 64" "a mod 4 * 16 + b div 16 < 64" "b mod 16 * 4 + c div 64 < 64" "c mod 64 < 64"
    "a mod 4 * 16 < 64" "b mod 16 * 4 < 64"
    "a div 4 * 4 + (a mod 4 * 16 + b div 16) div 16 = a"
    "(a mod 4 * 16 + b div 16) mod 16 * 16 + (b mod 16 * 4 + c div 64) div 4 = b"
    "(b mod 16 * 4 + c div 64) mod 4 * 64 + c mod 64 = c"
    "a div 4 * 4 + (a mod 4 * 16) div 16 = a"
    "(a mod 4 * 16 + b div 16) mod 16 * 16 + (b mod 16 * 4) div 4 = b"
proof -
  have b16: "b div 16 < 16" and c64: "c div 64 < 4" and a4: "a div 4 < 64"
    using assms by (simp_all add: less_mult_imp_div_less)
  have am: "a mod 4 < 4" and bm: "b mod 16 < 16" by simp_all
  show "a div 4 < 64" by (rule a4)
  show "a mod 4 * 16 + b div 16 < 64" using am b16 by linarith
  show "b mod 16 * 4 + c div 64 < 64" using bm c64 by linarith
  show "c mod 64 < 64" by simp
  show "a mod 4 * 16 < 64" using am by linarith
  show "b mod 16 * 4 < 64" using bm by linarith
  show "a div 4 * 4 + (a mod 4 * 16 + b div 16) div 16 = a"
    using hi_div(1) [OF b16, of "a mod 4"] by simp
  show "(a mod 4 * 16 + b div 16) mod 16 * 16 + (b mod 16 * 4 + c div 64) div 4 = b"
    using hi_div(2) [OF b16, of "a mod 4"] hi_div(1) [OF c64, of "b mod 16"] by simp
  show "(b mod 16 * 4 + c div 64) mod 4 * 64 + c mod 64 = c"
    using hi_div(2) [OF c64, of "b mod 16"] by simp
  show "a div 4 * 4 + (a mod 4 * 16) div 16 = a" by simp
  show "(a mod 4 * 16 + b div 16) mod 16 * 16 + (b mod 16 * 4) div 4 = b"
    using hi_div(2) [OF b16, of "a mod 4"] by simp
qed

lemma byte_bound: "unat (a :: byte) < 256"
  using unsigned_less [of a, where ?'a = nat] by simp

lemma sint_quantized:
  assumes "- 32768 \<le> q" and "q \<le> 32767"
  shows "sint (word_of_int q :: 16 word) = q"
  using assms by (simp add: signed_of_int signed_take_bit_int_eq_self)

lemma round_scaled:
  fixes s :: real
  assumes "- 1 \<le> s" and "s \<le> 1"
  shows "- 32767 \<le> round (s * 32767)" and "round (s * 32767) \<le> 32767"
proof -
  have "round (- 32767 :: real) \<le> round (s * 32767)"
    using assms by (intro round_mono) simp
  then show "- 32767 \<le> round (s * 32767)" by simp
  have "round (s * 32767) \<le> round (32767 :: real)"
    using assms by (intro round_mono) simp
  then show "round (s * 32767) \<le> 32767" by simp
qed

lemma of_nat_unat_byte: "of_nat (unat (a :: byte)) = a"
  by simp

lemma unbase64_base64: "unbase64 (base64 bytes) = Some bytes"
proof (induction bytes rule: base64.induct)
  case (1 a b c bytes)
  note s = sextets [OF byte_bound [of a] byte_bound [of b] byte_bound [of c]]
  note v = s(1-4) [THEN base64_value_char] and p = s(1-4) [THEN base64_char_not_pad]
  have "unbase64 (base64 (a # b # c # bytes)) =
      Some (of_nat (unat a div 4 * 4 + (unat a mod 4 * 16 + unat b div 16) div 16) #
            of_nat ((unat a mod 4 * 16 + unat b div 16) mod 16 * 16 +
                    (unat b mod 16 * 4 + unat c div 64) div 4) #
            of_nat ((unat b mod 16 * 4 + unat c div 64) mod 4 * 64 + unat c mod 64) # bytes)"
    by (simp only: base64.simps append_Cons append_Nil unbase64.simps v p "1.IH"
        option.case prod.case if_False)
  then show ?case by (simp only: s of_nat_unat_byte)
next
  case (2 a b)
  note s = sextets [OF byte_bound [of a] byte_bound [of b] byte_bound [of b]]
  note v = s(1,2,6) [THEN base64_value_char] and p = s(1,2,6) [THEN base64_char_not_pad]
  have "unbase64 (base64 [a, b]) =
      Some [of_nat (unat a div 4 * 4 + (unat a mod 4 * 16 + unat b div 16) div 16),
            of_nat ((unat a mod 4 * 16 + unat b div 16) mod 16 * 16 + (unat b mod 16 * 4) div 4)]"
    by (simp only: base64.simps unbase64.simps v p option.case prod.case if_False if_True
        simp_thms)
  then show ?case by (simp only: s of_nat_unat_byte)
next
  case (3 a)
  note s = sextets [OF byte_bound [of a] byte_bound [of a] byte_bound [of a]]
  note v = s(1,5) [THEN base64_value_char] and p = s(1,5) [THEN base64_char_not_pad]
  have "unbase64 (base64 [a]) = Some [of_nat (unat a div 4 * 4 + (unat a mod 4 * 16) div 16)]"
    by (simp only: base64.simps unbase64.simps v p option.case prod.case if_False if_True
        simp_thms)
  then show ?case by (simp only: s of_nat_unat_byte)
next
  case 4
  show ?case by simp
qed

lemma quantization_error:
  assumes "- 1 \<le> s" and "s \<le> 1"
  shows "\<bar>to_float (quantize s) - s\<bar> \<le> 3 / 65536"
proof -
  define q where "q = round (s * 32767)"
  have c: "clamp s = s" using assms by (simp add: clamp_def)
  have qb: "- 32768 \<le> q" "q \<le> 32767"
    using round_scaled [OF assms] by (simp_all add: q_def)
  have n: "to_float (quantize s) = real_of_int q / 32768"
    using sint_quantized [OF qb] by (simp add: to_float_def quantize_def c q_def)
  have r: "\<bar>real_of_int q - s * 32767\<bar> \<le> 1 / 2"
    unfolding q_def by (rule of_int_round_abs_le)
  have "\<bar>real_of_int q / 32768 - s\<bar> = \<bar>real_of_int q - s * 32768\<bar> / 32768"
    by (simp add: field_simps)
  also have "\<bar>real_of_int q - s * 32768\<bar> \<le> \<bar>real_of_int q - s * 32767\<bar> + \<bar>s\<bar>"
    by linarith
  also have "\<dots> \<le> 1 / 2 + 1" using r assms by linarith
  finally show ?thesis by (simp add: n divide_right_mono)
qed

text \<open>
  C7, with the bound the codec has. For every non-empty frame of samples in \<open>[-1,1]\<close>,
  encoding succeeds, decoding the result succeeds and gives as many samples, and each
  decoded sample is within \<open>3/65536\<close> (one and a half steps of \<open>1/32768\<close>) of the
  original: half a step from rounding, and up to a whole step from scaling by 32767 on
  the way out and by 32768 on the way back.
\<close>

theorem codec_round_trip:
  assumes "s \<noteq> []" and "\<forall>x \<in> set s. - 1 \<le> x \<and> x \<le> 1"
  shows "\<exists>w s'. spec_encode s = Returns w \<and> spec_decode w = Returns s' \<and>
           length s' = length s \<and> (\<forall>i < length s. \<bar>s' ! i - s ! i\<bar> \<le> 3 / 65536)"
proof -
  let ?w = "base64 (concat (map (\<lambda>x. pack (quantize x)) s))"
  have e: "spec_encode s = Returns ?w" using assms(1) by (simp add: spec_encode_def)
  have "unpack (concat (map (\<lambda>x. pack (quantize x)) s)) = map quantize s"
    using unpack_pack [of "map quantize s"] by (simp add: comp_def)
  then have d: "spec_decode ?w = Returns (map (\<lambda>x. to_float (quantize x)) s)"
    by (simp add: spec_decode_def unbase64_base64)
  have "\<forall>i < length s. \<bar>map (\<lambda>x. to_float (quantize x)) s ! i - s ! i\<bar> \<le> 3 / 65536"
  proof (intro allI impI)
    fix i assume i: "i < length s"
    then have "s ! i \<in> set s" by simp
    with assms(2) have "- 1 \<le> s ! i" "s ! i \<le> 1" by auto
    then have "\<bar>to_float (quantize (s ! i)) - s ! i\<bar> \<le> 3 / 65536"
      by (rule quantization_error)
    with i show "\<bar>map (\<lambda>x. to_float (quantize x)) s ! i - s ! i\<bar> \<le> 3 / 65536"
      by (simp only: nth_map)
  qed
  with e d show ?thesis by simp
qed

text \<open>The frame \<open>[1/2, -1]\<close>: the second sample comes back as \<open>-32767/32768\<close>.\<close>

theorem codec_round_trip_witness:
  "spec_encode [1 / 2, - 1] = Returns ''AEABgA=='' \<and>
   spec_decode ''AEABgA=='' = Returns [1 / 2, - (32767 / 32768)] \<and>
   \<bar>- (32767 / 32768) - (- 1) :: real\<bar> \<le> 3 / 65536"
proof -
  have e: "spec_encode [1 / 2, - 1] = Returns ''AEABgA==''"
    by (simp add: spec_encode_def quantize_def clamp_def round_def pack_def base64_char_def
        char_of_eq_iff)
  have d: "spec_decode ''AEABgA=='' = Returns [1 / 2, - (32767 / 32768)]"
    by (simp add: spec_decode_def base64_value_def to_float_def)
  have h: "[1 / 2, - 1 :: real] \<noteq> []" "\<forall>x \<in> set [1 / 2, - 1 :: real]. - 1 \<le> x \<and> x \<le> 1"
    by simp_all
  from codec_round_trip [OF h]
  obtain w s' where "spec_encode [1 / 2, - 1] = Returns w" "spec_decode w = Returns s'"
    "\<forall>i < length [1 / 2, - 1 :: real]. \<bar>s' ! i - [1 / 2, - 1] ! i\<bar> \<le> 3 / 65536"
    by blast
  then have "\<bar>[1 / 2, - (32767 / 32768)] ! 1 - [1 / 2, - 1 :: real] ! 1\<bar> \<le> 3 / 65536"
    using e d by auto
  then show ?thesis using e d by simp
qed

text \<open>
  C7 as stated fails: the sample 0.99998 is sent as 32766 and comes back as
  \<open>16383/16384\<close>, further than \<open>1/32768\<close> from where it started.
\<close>

theorem quantization_error_exceeds_bound:
  "spec_encode [49999 / 50000] = Returns ''/n8='' \<and>
   spec_decode ''/n8='' = Returns [16383 / 16384] \<and>
   \<bar>16383 / 16384 - 49999 / 50000 :: real\<bar> > 1 / 32768"
proof -
  have "spec_encode [49999 / 50000] = Returns ''/n8=''"
    by (simp add: spec_encode_def quantize_def clamp_def round_def pack_def base64_char_def
        char_of_eq_iff)
  moreover have "spec_decode ''/n8='' = Returns [16383 / 16384]"
    by (simp add: spec_decode_def base64_value_def to_float_def)
  ultimately show ?thesis by simp
qed

section \<open>Properties of message handling across the await\<close>

lemma handleMessage_split:
  "handleMessage U now now' s m =
     (case handleMessage_begin U now now' s m of
        (r, None) \<Rightarrow> r
      | (r, Some encoded) \<Rightarrow> handleMessage_resume U now' (fst r) m encoded)"
  by (simp add: handleMessage_def handleMessage_begin_def handleMessage_resume_def Let_def
      split: option.splits outcome.splits)

lemma begin_result:
  "handleMessage_begin U now now' s m = (r, Some encoded) \<Longrightarrow>
   snd r = ([], None)"
  by (auto simp: handleMessage_begin_def split: option.splits outcome.splits if_splits)

lemma run_to_completion:
  "turns U (s, []) [Arrives m now now', Completes 0 now'] = ((fst (step U s (Message m now now')), []), snd (step U s (Message m now now')))"
proof (cases "handleMessage_begin U now now' s m")
  case (Pair r k)
  show ?thesis
  proof (cases k)
    case None
    with Pair show ?thesis by (simp add: handleMessage_split)
  next
    case (Some encoded)
    with Pair have "snd r = ([], None)" by (simp add: begin_result)
    then obtain s1 where r: "r = (s1, [], None)" by (cases r) auto
    show ?thesis using Pair Some r
      by (simp add: handleMessage_split unhandled_def split: prod.splits)
  qed
qed

lemma begin_audio:
  assumes "audio_of U m = Some buf" and "outputAudioContext s = Some ctx"
  shows "\<exists>encoded. handleMessage_begin U now now' s m =
           ((s\<lparr>nextStartTime := max (nextStartTime s) now\<rparr>, [], None), Some encoded) \<and>
           decodeAudioData U encoded 24000 1 = Returns buf"
  using assms
  by (auto simp: handleMessage_begin_def audio_of_def split: option.splits outcome.splits if_splits)

lemma resume_audio:
  assumes "decodeAudioData U encoded 24000 1 = Returns buf" and "\<not> interrupted m"
  shows "handleMessage_resume U now' s m encoded =
           (s\<lparr>created := Suc (created s), sources := sources s @ [created s],
              nextStartTime := nextStartTime s + duration buf\<rparr>,
            [OnAudioData buf, SourceStart (created s) (nextStartTime s)], None)"
  using assms by (simp add: handleMessage_resume_def on_interrupted_def Let_def)

text \<open>
  C9, as the code has it. Two messages with audio arrive in a given order on a service
  with no call suspended. The class has no queue: each message is reported to the
  observer and scheduled when its own decoding settles. If the first decoding settles
  first, the first message is reported and scheduled first and the second starts where
  the first ends; if the second decoding settles first, the second message is reported
  and scheduled first. When each call runs to its end before the next message arrives,
  the outcome is that of handling the messages one after the other.
\<close>

theorem completion_order_is_playback_order:
  assumes "audio_of U m = Some a" and "audio_of U n = Some b"
    and "\<not> interrupted m" and "\<not> interrupted n" and "outputAudioContext s = Some ctx"
  shows "snd (turns U (s, []) [Arrives m ta ta', Arrives n tb tb', Completes 0 tc, Completes 0 td]) =
           [OnAudioData a, SourceStart (created s) (max (max (nextStartTime s) ta) tb),
            OnAudioData b,
            SourceStart (Suc (created s)) (max (max (nextStartTime s) ta) tb + duration a)] \<and>
         snd (turns U (s, []) [Arrives m ta ta', Arrives n tb tb', Completes 1 tc, Completes 0 td]) =
           [OnAudioData b, SourceStart (created s) (max (max (nextStartTime s) ta) tb),
            OnAudioData a,
            SourceStart (Suc (created s)) (max (max (nextStartTime s) ta) tb + duration b)] \<and>
         turns U (s, []) [Arrives m ta ta', Completes 0 ta', Arrives n tb tb', Completes 0 tb'] =
           ((fst (run U s [Message m ta ta', Message n tb tb']), []),
            snd (run U s [Message m ta ta', Message n tb tb']))"
proof -
  let ?s1 = "s\<lparr>nextStartTime := max (nextStartTime s) ta\<rparr>"
  let ?s2 = "?s1\<lparr>nextStartTime := max (nextStartTime ?s1) tb\<rparr>"
  from begin_audio [OF assms(1) assms(5), of ta ta'] obtain e1 where
    b1: "handleMessage_begin U ta ta' s m = ((?s1, [], None), Some e1)"
    and d1: "decodeAudioData U e1 24000 1 = Returns a" by blast
  have ctx1: "outputAudioContext ?s1 = Some ctx" using assms(5) by simp
  from begin_audio [OF assms(2) ctx1, of tb tb'] obtain e2 where
    b2: "handleMessage_begin U tb tb' ?s1 n = ((?s2, [], None), Some e2)"
    and d2: "decodeAudioData U e2 24000 1 = Returns b" by blast
  have two: "turns U (s, []) (Arrives m ta ta' # Arrives n tb tb' # ts) =
      (case turns U (?s2, [\<lparr>call_message = m, call_encoded = e1\<rparr>,
                            \<lparr>call_message = n, call_encoded = e2\<rparr>]) ts of
         (l, out) \<Rightarrow> (l, out))" for ts
    by (simp add: b1 b2 unhandled_def split: prod.splits)
  have A: "snd (turns U (s, []) [Arrives m ta ta', Arrives n tb tb', Completes 0 tc, Completes 0 td]) =
           [OnAudioData a, SourceStart (created s) (max (max (nextStartTime s) ta) tb),
            OnAudioData b,
            SourceStart (Suc (created s)) (max (max (nextStartTime s) ta) tb + duration a)]"
    unfolding two
    by (simp add: resume_audio [OF d1 assms(3)] resume_audio [OF d2 assms(4)] unhandled_def)
  have B: "snd (turns U (s, []) [Arrives m ta ta', Arrives n tb tb', Completes 1 tc, Completes 0 td]) =
           [OnAudioData b, SourceStart (created s) (max (max (nextStartTime s) ta) tb),
            OnAudioData a,
            SourceStart (Suc (created s)) (max (max (nextStartTime s) ta) tb + duration b)]"
    unfolding two
    by (simp add: resume_audio [OF d1 assms(3)] resume_audio [OF d2 assms(4)] unhandled_def)
  have C: "turns U (s, []) [Arrives m ta ta', Completes 0 ta', Arrives n tb tb', Completes 0 tb'] =
           ((fst (run U s [Message m ta ta', Message n tb tb']), []),
            snd (run U s [Message m ta ta', Message n tb tb']))"
  proof -
    have app: "turns U l (t1 # t2 # ts) =
        (fst (turns U (fst (turns U l [t1, t2])) ts),
         snd (turns U l [t1, t2]) @ snd (turns U (fst (turns U l [t1, t2])) ts))" for l t1 t2 ts
      by (simp split: prod.splits)
    show ?thesis
      unfolding app [of "(s, [])" _ _ "[Arrives n tb tb', Completes 0 tb']"]
      by (simp only: run_to_completion fst_conv snd_conv run_Cons run.simps append_Nil2)
  qed
  from A B C show ?thesis by blast
qed

text \<open>A frame of four samples, then one of eight; the decodings settle in that order.\<close>

theorem completion_order_is_playback_order_witness:
  "snd (turns hush (ready, [])
      [Arrives short_frame 0 0, Arrives long_frame 0 0, Completes 0 0, Completes 0 0]) =
     [OnAudioData \<lparr>channelData = [0, 0, 0, 0], sampleRate = 24000\<rparr>, SourceStart 0 0,
      OnAudioData \<lparr>channelData = [0, 0, 0, 0, 0, 0, 0, 0], sampleRate = 24000\<rparr>,
      SourceStart 1 (1 / 6000)]"
  using completion_order_is_playback_order [where U = hush and s = ready
      and ctx = "AudioContext 24000" and m = short_frame and n = long_frame
      and a = "\<lparr>channelData = [0, 0, 0, 0], sampleRate = 24000\<rparr>"
      and b = "\<lparr>channelData = [0, 0, 0, 0, 0, 0, 0, 0], sampleRate = 24000\<rparr>"
      and ta = 0 and ta' = 0 and tb = 0 and tb' = 0 and tc = 0 and td = 0]
  by (simp add: audio_of_def hush_def ready_def new_service_def short_frame_def long_frame_def
      duration_def)

text \<open>
  C9 as stated fails: the same two frames, but the decoding of the second settles first.
  The second frame is reported and scheduled before the first.
\<close>

theorem late_decode_reorders_playback:
  "snd (turns hush (ready, [])
      [Arrives short_frame 0 0, Arrives long_frame 0 0, Completes 1 0, Completes 0 0]) =
     [OnAudioData \<lparr>channelData = [0, 0, 0, 0, 0, 0, 0, 0], sampleRate = 24000\<rparr>, SourceStart 0 0,
      OnAudioData \<lparr>channelData = [0, 0, 0, 0], sampleRate = 24000\<rparr>,
      SourceStart 1 (1 / 3000)]"
  by (simp add: handleMessage_begin_def handleMessage_resume_def on_interrupted_def
      unhandled_def hush_def ready_def new_service_def short_frame_def long_frame_def
      duration_def Let_def)
















end
